theory Spec2Isabelle
  imports Main "HOL-Library.Word"
begin

section \<open>Data model of the FM-index (nvbio/fmindex/fmindex_inl.h)\<close>

text \<open>
  The query functions of \<^verbatim>\<open>fmindex_inl.h\<close> are templates over the rank dictionary and the
  sampled suffix array. Their \<^verbatim>\<open>index_type\<close> is an unsigned machine integer (the range
  overload of \<^verbatim>\<open>rank4\<close> builds its result with \<^verbatim>\<open>make_uint4\<close>), so an index is a
  \<open>'w word\<close>: \<^verbatim>\<open>index_type(-1)\<close> is the all-ones word \<open>- 1\<close>, and \<^verbatim>\<open>range.x-1\<close> wraps to it
  at \<open>0\<close>. A symbol is a \<^verbatim>\<open>uint8\<close>, a pattern length a \<^verbatim>\<open>uint32\<close>.

  \<^verbatim>\<open>range_type\<close> is the two-component vector: \<^verbatim>\<open>make_vector(x,y)\<close> is the pair \<open>(x, y)\<close>,
  \<^verbatim>\<open>.x\<close> is \<open>fst\<close> and \<^verbatim>\<open>.y\<close> is \<open>snd\<close>. \<^verbatim>\<open>vec4_type\<close> is the four-component vector.
\<close>

type_synonym uint8 = "8 word"
type_synonym uint32 = "32 word"
type_synonym 'w range_type = "'w word \<times> 'w word"
type_synonym 'w vec4_type = "'w word \<times> 'w word \<times> 'w word \<times> 'w word"

text \<open>
  The class declarations (\<^verbatim>\<open>fm_index\<close>, the rank dictionary, the sampled suffix array) are
  not part of the sources at hand, so what the query functions call on them is taken as a
  parameter: each record field below is one accessor or one free function on the
  collaborator, with the type the call sites give it.

  \<^item> \<open>dict_rank d k c\<close> is \<^verbatim>\<open>rank( fmi.rank_dict(), k, c )\<close>,
    \<open>dict_rank_range d range c\<close> is \<^verbatim>\<open>rank( fmi.rank_dict(), range, c )\<close> and
    \<open>dict_rank4 d k\<close> is \<^verbatim>\<open>rank4( fmi.rank_dict(), k )\<close>;
  \<^item> \<open>fetch s j\<close> is \<^verbatim>\<open>sa.fetch( j, suffix )\<close>: \<open>Some suffix\<close> when the call returns true
    (and has written \<^verbatim>\<open>suffix\<close>), \<open>None\<close> when it returns false; \<open>has s j\<close> is
    \<^verbatim>\<open>sa.has( j )\<close>;
  \<^item> \<open>bwt fmi k\<close> is \<^verbatim>\<open>fmi.bwt()[k]\<close>.
\<close>

record (overloaded) 'w rank_dictionary =
  dict_rank :: "'w word \<Rightarrow> uint8 \<Rightarrow> 'w word"
  dict_rank_range :: "'w range_type \<Rightarrow> uint8 \<Rightarrow> 'w range_type"
  dict_rank4 :: "'w word \<Rightarrow> 'w vec4_type"

record (overloaded) 'w suffix_array =
  fetch :: "'w word \<Rightarrow> 'w word option"
  has :: "'w word \<Rightarrow> bool"

record (overloaded) 'w fm_index =
  length_fmi :: "'w word"
  primary :: "'w word"
  count :: "uint8 \<Rightarrow> 'w word"
  L2 :: "uint8 \<Rightarrow> 'w word"
  rank_dict :: "'w rank_dictionary"
  sa :: "'w suffix_array"
  bwt :: "'w word \<Rightarrow> uint8"

section \<open>Rank queries\<close>

text \<open>\<^verbatim>\<open>rank( fmi, k, c )\<close>, lines 31-47.\<close>

definition rank :: "'w::len fm_index \<Rightarrow> 'w word \<Rightarrow> uint8 \<Rightarrow> 'w word" where
  "rank fmi k c =
     (if k = - 1 then 0
      else if k = length_fmi fmi then count fmi c
      else dict_rank (rank_dict fmi) (if primary fmi \<le> k then k - 1 else k) c)"

text \<open>\<^verbatim>\<open>rank( fmi, range, c )\<close>, lines 60-88.\<close>

definition rank_range :: "'w::len fm_index \<Rightarrow> 'w range_type \<Rightarrow> uint8 \<Rightarrow> 'w range_type" where
  "rank_range fmi rng c =
     (if fst rng = snd rng then (let r = rank fmi (fst rng) c in (r, r))
      else if fst rng = - 1 then (let r = rank fmi (snd rng) c in (0, r))
      else if snd rng = length_fmi fmi then (rank fmi (fst rng) c, count fmi c)
      else dict_rank_range (rank_dict fmi)
             (if primary fmi \<le> fst rng then fst rng - 1 else fst rng,
              if primary fmi \<le> snd rng then snd rng - 1 else snd rng) c)"

text \<open>\<^verbatim>\<open>rank4( fmi, k )\<close>, lines 100-123.\<close>

definition rank4 :: "'w::len fm_index \<Rightarrow> 'w word \<Rightarrow> 'w vec4_type" where
  "rank4 fmi k =
     (if k = - 1 then (0, 0, 0, 0)
      else if k = length_fmi fmi then (count fmi 0, count fmi 1, count fmi 2, count fmi 3)
      else dict_rank4 (rank_dict fmi) (if primary fmi \<le> k then k - 1 else k))"

section \<open>Backward search\<close>

text \<open>
  The loop of \<^verbatim>\<open>match\<close>, lines 224-238:
  \<^verbatim>\<open>for (int32 i = pattern_len-1; i >= 0 && range.x <= range.y; --i)\<close>.
  The counter is a signed 32-bit integer that only ever decreases from its initial value
  to \<open>-1\<close>, so it is an \<open>int\<close> here; the conversion of the unsigned \<^verbatim>\<open>pattern_len-1\<close> to
  \<^verbatim>\<open>int32\<close> is done by \<open>match\<close> below. The pattern is a random-access iterator, read
  only through \<^verbatim>\<open>pattern[i]\<close>: a function from positions to symbols.
\<close>

function match_loop ::
  "'w::len fm_index \<Rightarrow> (nat \<Rightarrow> uint8) \<Rightarrow> int \<Rightarrow> 'w range_type \<Rightarrow> 'w range_type" where
  "match_loop fmi pattern i rng =
     (if 0 \<le> i \<and> fst rng \<le> snd rng then
        (let c = pattern (nat i) in
         if 3 < c then (1, 0)
         else
           (let c_rank = rank_range fmi (fst rng - 1, snd rng) c in
            match_loop fmi pattern (i - 1)
              (L2 fmi c + fst c_rank + 1, L2 fmi c + snd c_rank)))
      else rng)"
  by pat_completeness auto
termination
  by (relation "measure (\<lambda>(fmi, pattern, i, rng). nat (i + 1))") auto

declare match_loop.simps [simp del]

text \<open>\<^verbatim>\<open>match( fmi, pattern, pattern_len, in_range )\<close>, lines 212-239.\<close>

definition match ::
  "'w::len fm_index \<Rightarrow> (nat \<Rightarrow> uint8) \<Rightarrow> uint32 \<Rightarrow> 'w range_type \<Rightarrow> 'w range_type" where
  "match fmi pattern pattern_len in_range =
     match_loop fmi pattern (sint (pattern_len - 1)) in_range"

text \<open>
  \<^verbatim>\<open>match( fmi, pattern, pattern_len )\<close>, lines 186-198: the overload that starts from the
  full range.
\<close>

definition match_full ::
  "'w::len fm_index \<Rightarrow> (nat \<Rightarrow> uint8) \<Rightarrow> uint32 \<Rightarrow> 'w range_type" where
  "match_full fmi pattern pattern_len =
     match fmi pattern pattern_len (0, length_fmi fmi)"

text \<open>
  The loop of \<^verbatim>\<open>match_reverse\<close>, lines 263-277:
  \<^verbatim>\<open>for (uint32 i = 0; i < pattern_len && range.x <= range.y; ++i)\<close>.
\<close>

function match_reverse_loop ::
  "'w::len fm_index \<Rightarrow> (nat \<Rightarrow> uint8) \<Rightarrow> uint32 \<Rightarrow> uint32 \<Rightarrow> 'w range_type \<Rightarrow> 'w range_type"
  where
  "match_reverse_loop fmi pattern pattern_len i rng =
     (if i < pattern_len \<and> fst rng \<le> snd rng then
        (let c = pattern (unat i) in
         if 3 < c then (1, 0)
         else
           (let c_rank = rank_range fmi (fst rng - 1, snd rng) c in
            match_reverse_loop fmi pattern pattern_len (i + 1)
              (L2 fmi c + fst c_rank + 1, L2 fmi c + snd c_rank)))
      else rng)"
  by pat_completeness auto
termination
  apply (relation "measure (\<lambda>(fmi, pattern, pattern_len, i, rng). unat pattern_len - unat i)")
   apply simp
  apply clarsimp
  apply unat_arith
  done

declare match_reverse_loop.simps [simp del]

text \<open>\<^verbatim>\<open>match_reverse( fmi, pattern, pattern_len )\<close>, lines 252-278.\<close>

definition match_reverse ::
  "'w::len fm_index \<Rightarrow> (nat \<Rightarrow> uint8) \<Rightarrow> uint32 \<Rightarrow> 'w range_type" where
  "match_reverse fmi pattern pattern_len =
     match_reverse_loop fmi pattern pattern_len 0 (0, length_fmi fmi)"

text \<open>
  Both loops apply one and the same update to the range for each symbol they read. For
  the proofs, that update is \<open>search_step\<close>, and \<open>scan\<close> is the search over the symbols
  listed in the order in which a loop reads them.
\<close>

definition search_step :: "'w::len fm_index \<Rightarrow> 'w range_type \<Rightarrow> uint8 \<Rightarrow> 'w range_type" where
  "search_step fmi rng c =
     (let c_rank = rank_range fmi (fst rng - 1, snd rng) c in
      (L2 fmi c + fst c_rank + 1, L2 fmi c + snd c_rank))"

fun scan :: "'w::len fm_index \<Rightarrow> uint8 list \<Rightarrow> 'w range_type \<Rightarrow> 'w range_type" where
  "scan fmi [] rng = rng"
| "scan fmi (c # cs) rng =
     (if fst rng \<le> snd rng then
        (if 3 < c then (1, 0) else scan fmi cs (search_step fmi rng c))
      else rng)"

text \<open>
  A pattern read backwards, as a caller of \<^verbatim>\<open>match_reverse\<close> reverses it: position \<open>i\<close> of
  the reversed pattern of length \<open>n\<close> is position \<open>(n - 1) - i\<close> of the pattern (the
  \<^verbatim>\<open>ReverseXform\<close> functor, built from \<open>n\<close>, maps \<open>i\<close> to \<^verbatim>\<open>pos-i\<close> with \<^verbatim>\<open>pos = n-1\<close>).
\<close>

definition reverse_pattern :: "(nat \<Rightarrow> uint8) \<Rightarrow> uint32 \<Rightarrow> nat \<Rightarrow> uint8" where
  "reverse_pattern pattern pattern_len i = pattern (unat pattern_len - 1 - i)"

section \<open>Coordinate recovery\<close>

text \<open>
  \<^verbatim>\<open>NVBIO_CUDA_ASSERT\<close> is a debug-time assertion, not a check the query path makes at
  run time, so it is no branch of the functions below. What it asserts
  (\<^verbatim>\<open>i <= fmi.length()\<close>) appears as a premise of the theorems where it matters.

  \<^verbatim>\<open>basic_inv_psi( fmi, i )\<close>, lines 290-309.
\<close>

definition basic_inv_psi :: "'w::len fm_index \<Rightarrow> 'w word \<Rightarrow> 'w word" where
  "basic_inv_psi fmi i =
     (if i = primary fmi then 0
      else
        (let k = (if i < primary fmi then i else i - 1);
             c = bwt fmi k
         in L2 fmi c + dict_rank (rank_dict fmi) k c))"

text \<open>
  The three walks below loop until the sampled suffix array answers, which it need not
  ever do: each loop is a partial function, \<open>None\<close> standing for a walk that never
  returns. The arguments are the loop variables \<^verbatim>\<open>j\<close> and \<^verbatim>\<open>t\<close>.

  \<^verbatim>\<open>inv_psi( fmi, i )\<close>, lines 321-351.
\<close>

partial_function (option) inv_psi_loop ::
  "'w::len fm_index \<Rightarrow> 'w word \<Rightarrow> 'w word \<Rightarrow> 'w range_type option" where
  "inv_psi_loop fmi j t =
     (case fetch (sa fmi) j of
        Some suffix \<Rightarrow> Some (j, t)
      | None \<Rightarrow>
          inv_psi_loop fmi
            (if j \<noteq> primary fmi
             then (let c = (if j < primary fmi then bwt fmi j else bwt fmi (j - 1))
                   in L2 fmi c + rank fmi j c)
             else 0)
            (t + 1))"

declare inv_psi_loop.simps [code]

definition inv_psi :: "'w::len fm_index \<Rightarrow> 'w word \<Rightarrow> 'w range_type option" where
  "inv_psi fmi i = inv_psi_loop fmi i 0"

text \<open>\<^verbatim>\<open>locate( fmi, i )\<close>, lines 364-394.\<close>

partial_function (option) locate_loop ::
  "'w::len fm_index \<Rightarrow> 'w word \<Rightarrow> 'w word \<Rightarrow> 'w word option" where
  "locate_loop fmi j t =
     (case fetch (sa fmi) j of
        Some suffix \<Rightarrow> Some (suffix + t)
      | None \<Rightarrow>
          locate_loop fmi
            (if j \<noteq> primary fmi
             then (let c = (if j < primary fmi then bwt fmi j else bwt fmi (j - 1))
                   in L2 fmi c + rank fmi j c)
             else 0)
            (t + 1))"

declare locate_loop.simps [code]

definition locate :: "'w::len fm_index \<Rightarrow> 'w word \<Rightarrow> 'w word option" where
  "locate fmi i = locate_loop fmi i 0"

text \<open>\<^verbatim>\<open>locate_ssa_iterator( fmi, i )\<close>, lines 408-437.\<close>

partial_function (option) locate_ssa_iterator_loop ::
  "'w::len fm_index \<Rightarrow> 'w word \<Rightarrow> 'w word \<Rightarrow> 'w range_type option" where
  "locate_ssa_iterator_loop fmi j t =
     (if \<not> has (sa fmi) j then
        locate_ssa_iterator_loop fmi
          (if j \<noteq> primary fmi
           then (let c = (if j < primary fmi then bwt fmi j else bwt fmi (j - 1))
                 in L2 fmi c + rank fmi j c)
           else 0)
          (t + 1)
      else Some (j, t))"

declare locate_ssa_iterator_loop.simps [code]

definition locate_ssa_iterator :: "'w::len fm_index \<Rightarrow> 'w word \<Rightarrow> 'w range_type option" where
  "locate_ssa_iterator fmi i = locate_ssa_iterator_loop fmi i 0"

text \<open>
  \<^verbatim>\<open>lookup_ssa_iterator( fmi, it )\<close>, lines 449-460. The source ignores what \<^verbatim>\<open>fetch\<close>
  returns: when the fetch fails, \<^verbatim>\<open>suffix\<close> is never written and the sum reads an
  uninitialised variable. That outcome is \<open>None\<close>.
\<close>

definition lookup_ssa_iterator :: "'w::len fm_index \<Rightarrow> 'w range_type \<Rightarrow> 'w word option" where
  "lookup_ssa_iterator fmi it =
     (case fetch (sa fmi) (fst it) of
        Some suffix \<Rightarrow> Some (suffix + snd it)
      | None \<Rightarrow> None)"

text \<open>
  One turn of the walk: the body that the loops of \<^verbatim>\<open>inv_psi\<close>, \<^verbatim>\<open>locate\<close> and
  \<^verbatim>\<open>locate_ssa_iterator\<close> share word for word (lines 339-346, 382-389, 425-432), as the
  function it computes on \<^verbatim>\<open>j\<close>. It is used to say where a walk goes.
\<close>

definition walk_step :: "'w::len fm_index \<Rightarrow> 'w word \<Rightarrow> 'w word" where
  "walk_step fmi j =
     (if j \<noteq> primary fmi
      then (let c = (if j < primary fmi then bwt fmi j else bwt fmi (j - 1))
            in L2 fmi c + rank fmi j c)
      else 0)"

section \<open>A concrete index: the text ACGTACGT\<close>

text \<open>
  The index of the text \<^verbatim>\<open>ACGTACGT\<close> over A=0, C=1, G=2, T=3, with 32-bit indices. Its
  suffix array is \<^verbatim>\<open>[8,4,0,5,1,6,2,7,3]\<close>, so the Burrows-Wheeler transform is
  \<^verbatim>\<open>TT$AACCGG\<close>: the sentinel sits at row 2 and the stored symbols are \<open>ex_bwt\<close>. The rank
  dictionary counts occurrences in a prefix of \<open>ex_bwt\<close>; the suffix array is sampled at
  the rows 0, 4 and 8.
\<close>

definition ex_bwt :: "uint8 list" where
  "ex_bwt = [3, 3, 0, 0, 1, 1, 2, 2]"

definition ex_occ :: "32 word \<Rightarrow> uint8 \<Rightarrow> 32 word" where
  "ex_occ k c =
     (if k = - 1 then 0
      else of_nat (length (filter (\<lambda>s. s = c) (take (Suc (unat k)) ex_bwt))))"

definition ex_dict :: "32 rank_dictionary" where
  "ex_dict =
     \<lparr> dict_rank = ex_occ,
       dict_rank_range = (\<lambda>rng c. (ex_occ (fst rng) c, ex_occ (snd rng) c)),
       dict_rank4 = (\<lambda>k. (ex_occ k 0, ex_occ k 1, ex_occ k 2, ex_occ k 3)) \<rparr>"

definition ex_ssa :: "32 word \<rightharpoonup> 32 word" where
  "ex_ssa = [0 \<mapsto> 8, 4 \<mapsto> 1, 8 \<mapsto> 3]"

definition ex_sa :: "32 suffix_array" where
  "ex_sa = \<lparr> fetch = ex_ssa, has = (\<lambda>j. ex_ssa j \<noteq> None) \<rparr>"

definition ex_fmi :: "32 fm_index" where
  "ex_fmi =
     \<lparr> length_fmi = 8,
       primary = 2,
       count = (\<lambda>c. if c < 4 then 2 else 0),
       L2 = (\<lambda>c. if c < 4 then 2 * ucast c else 8),
       rank_dict = ex_dict,
       sa = ex_sa,
       bwt = (\<lambda>k. ex_bwt ! unat k) \<rparr>"

text \<open>Patterns over that alphabet: \<^verbatim>\<open>N\<close> (one ambiguous symbol) and \<^verbatim>\<open>ACGT\<close>.\<close>

definition ex_n :: "nat \<Rightarrow> uint8" where
  "ex_n i = [4] ! i"

definition ex_acgt :: "nat \<Rightarrow> uint8" where
  "ex_acgt i = [0, 1, 2, 3] ! i"

text \<open>
  \<^verbatim>\<open>ACGN\<close>, \<^verbatim>\<open>NCC\<close> and \<^verbatim>\<open>CCN\<close>, where \<^verbatim>\<open>CC\<close> does not occur in the text; and the pattern
  that reads A at every position, whatever its length.
\<close>

definition ex_acgn :: "nat \<Rightarrow> uint8" where
  "ex_acgn i = [0, 1, 2, 4] ! i"

definition ex_ncc :: "nat \<Rightarrow> uint8" where
  "ex_ncc i = [4, 1, 1] ! i"

definition ex_ccn :: "nat \<Rightarrow> uint8" where
  "ex_ccn i = [1, 1, 4] ! i"

definition ex_all_a :: "nat \<Rightarrow> uint8" where
  "ex_all_a i = 0"

text \<open>
  The index of the text made of \<open>2^32 - 1\<close> times the symbol A, the longest a 32-bit length
  can describe. Its suffixes sort by length, so the suffix array is
  \<^verbatim>\<open>[L, L-1, ..., 0]\<close>, every stored symbol of the transform is A, the sentinel sits at the
  last row, and the rank of A at \<open>k\<close> is \<open>k + 1\<close>. Its length is the all-ones word, the
  value the code reads as \<^verbatim>\<open>index_type(-1)\<close>.
\<close>

definition ex_max_fmi :: "32 fm_index" where
  "ex_max_fmi =
     \<lparr> length_fmi = 4294967295,
       primary = 4294967295,
       count = (\<lambda>c. if c = 0 then 4294967295 else 0),
       L2 = (\<lambda>c. if c = 0 then 0 else 4294967295),
       rank_dict =
         \<lparr> dict_rank = (\<lambda>k c. if c = 0 then k + 1 else 0),
           dict_rank_range = (\<lambda>rng c. if c = 0 then (fst rng + 1, snd rng + 1) else (0, 0)),
           dict_rank4 = (\<lambda>k. (k + 1, 0, 0, 0)) \<rparr>,
       sa = \<lparr> fetch = (\<lambda>j. Some (4294967295 - j)), has = (\<lambda>j. True) \<rparr>,
       bwt = (\<lambda>k. 0) \<rparr>"

section \<open>Properties of the rank queries\<close>

text \<open>
  Claim C2, as the code has it. For every FM-index and every symbol \<open>c\<close>: the rank at
  \<open>-1\<close> is \<open>0\<close>; the rank at the full length \<open>L\<close> is the precomputed \<open>count c\<close>, provided
  that \<open>L\<close> is not itself the all-ones word (the test for \<open>-1\<close> comes first and wins);
  and for every \<open>k < L\<close> the result is the dictionary's rank, taken at \<open>k - 1\<close> when
  \<open>k \<ge> primary\<close> and at \<open>k\<close> otherwise.
\<close>

theorem rank_cases:
  "rank fmi (- 1) c = 0
   \<and> (length_fmi fmi \<noteq> - 1 \<longrightarrow> rank fmi (length_fmi fmi) c = count fmi c)
   \<and> (k < length_fmi fmi \<longrightarrow>
        rank fmi k c =
          dict_rank (rank_dict fmi) (if primary fmi \<le> k then k - 1 else k) c)"
  by (auto simp: rank_def)

theorem rank_cases_witness:
  "rank ex_fmi (- 1) 2 = 0
   \<and> length_fmi ex_fmi \<noteq> - 1 \<and> rank ex_fmi (length_fmi ex_fmi) 2 = count ex_fmi 2
   \<and> 5 < length_fmi ex_fmi
   \<and> rank ex_fmi 5 1 = dict_rank (rank_dict ex_fmi) 4 1
   \<and> rank ex_fmi 5 1 = 1"
proof -
  have l: "length_fmi ex_fmi \<noteq> - 1" and k: "5 < length_fmi ex_fmi"
    and p: "primary ex_fmi \<le> 5"
    by (simp_all add: ex_fmi_def)
  have v: "rank ex_fmi 5 1 = 1"
    by code_simp
  from rank_cases [of ex_fmi 2 5] rank_cases [of ex_fmi 1 5] l k p v
  show ?thesis by simp
qed

text \<open>
  Claim C2 as stated fails where the length is the all-ones word: in the index of
  \<open>2^32 - 1\<close> symbols A, the rank of A at the full length is \<open>0\<close>, and the count of A is
  \<open>2^32 - 1\<close>.
\<close>

theorem rank_full_length_counterexample:
  "length_fmi ex_max_fmi = - 1
   \<and> rank ex_max_fmi (length_fmi ex_max_fmi) 0 = 0
   \<and> count ex_max_fmi 0 = 4294967295"
  by (simp add: rank_def ex_max_fmi_def)

text \<open>
  Claim C3. For every FM-index whose rank dictionary's \<^verbatim>\<open>rank4\<close> agrees pointwise with
  its \<^verbatim>\<open>rank\<close>, and every valid \<open>k\<close> (\<open>-1\<close>, or at most the length), \<open>rank4 fmi k\<close> is the
  tuple of the four ranks \<open>rank fmi k 0\<close>, ..., \<open>rank fmi k 3\<close>.
\<close>

theorem rank4_consistent:
  assumes "\<forall>k. dict_rank4 (rank_dict fmi) k =
             (dict_rank (rank_dict fmi) k 0, dict_rank (rank_dict fmi) k 1,
              dict_rank (rank_dict fmi) k 2, dict_rank (rank_dict fmi) k 3)"
    and "k = - 1 \<or> k \<le> length_fmi fmi"
  shows "rank4 fmi k = (rank fmi k 0, rank fmi k 1, rank fmi k 2, rank fmi k 3)"
  using assms(1) by (simp add: rank4_def rank_def)

theorem rank4_consistent_witness:
  "rank4 ex_fmi 5 = (rank ex_fmi 5 0, rank ex_fmi 5 1, rank ex_fmi 5 2, rank ex_fmi 5 3)
   \<and> rank4 ex_fmi 5 = (2, 1, 0, 2)"
proof -
  have h: "\<forall>k. dict_rank4 (rank_dict ex_fmi) k =
             (dict_rank (rank_dict ex_fmi) k 0, dict_rank (rank_dict ex_fmi) k 1,
              dict_rank (rank_dict ex_fmi) k 2, dict_rank (rank_dict ex_fmi) k 3)"
    by (simp add: ex_fmi_def ex_dict_def)
  have v: "(5 :: 32 word) = - 1 \<or> 5 \<le> length_fmi ex_fmi"
    by (simp add: ex_fmi_def)
  have "rank4 ex_fmi 5 = (2, 1, 0, 2)"
    by code_simp
  with rank4_consistent [OF h v] show ?thesis by simp
qed

text \<open>
  Claim C8, as the code has it. For every symbol \<open>c\<close>: (1) on a range with \<open>x = y\<close> the
  range rank is \<open>(r, r)\<close> with \<open>r\<close> the rank at \<open>x\<close>; (2) on a range with \<open>x = -1\<close> it is
  \<open>(0, rank y)\<close>; (3) in every other case where \<open>y\<close> is not \<open>-1\<close>, it is
  \<open>(rank x, rank y)\<close>, given that the dictionary's two-endpoint rank is its one-endpoint
  rank at both ends and, where \<open>x\<close> is the length \<open>L\<close>, that the primary row is at most
  \<open>L\<close> and \<open>count c\<close> is the dictionary's total for \<open>c\<close> (its rank at \<open>L - 1\<close>).
\<close>

theorem rank_range_cases:
  "(fst rng = snd rng \<longrightarrow>
      rank_range fmi rng c = (rank fmi (fst rng) c, rank fmi (fst rng) c))
   \<and> (fst rng = - 1 \<longrightarrow> rank_range fmi rng c = (0, rank fmi (snd rng) c))
   \<and> (fst rng \<noteq> snd rng \<and> fst rng \<noteq> - 1 \<and> snd rng \<noteq> - 1
        \<and> (\<forall>r. dict_rank_range (rank_dict fmi) r c =
                 (dict_rank (rank_dict fmi) (fst r) c, dict_rank (rank_dict fmi) (snd r) c))
        \<and> (fst rng = length_fmi fmi \<longrightarrow>
              primary fmi \<le> length_fmi fmi
              \<and> count fmi c = dict_rank (rank_dict fmi) (length_fmi fmi - 1) c)
      \<longrightarrow> rank_range fmi rng c = (rank fmi (fst rng) c, rank fmi (snd rng) c))"
  by (auto simp: rank_range_def rank_def Let_def)

theorem rank_range_cases_witness:
  "rank_range ex_fmi (5, 5) 1 = (rank ex_fmi 5 1, rank ex_fmi 5 1)
   \<and> rank_range ex_fmi (- 1, 8) 3 = (0, rank ex_fmi 8 3)
   \<and> rank_range ex_fmi (1, 5) 1 = (rank ex_fmi 1 1, rank ex_fmi 5 1)
   \<and> rank_range ex_fmi (1, 5) 1 = (0, 1)
   \<and> primary ex_fmi \<le> length_fmi ex_fmi
   \<and> count ex_fmi 1 = dict_rank (rank_dict ex_fmi) (length_fmi ex_fmi - 1) 1
   \<and> rank_range ex_fmi (8, 3) 1 = (rank ex_fmi 8 1, rank ex_fmi 3 1)
   \<and> rank_range ex_fmi (8, 3) 1 = (2, 0)"
proof -
  have d: "\<forall>r. dict_rank_range (rank_dict ex_fmi) r 1 =
             (dict_rank (rank_dict ex_fmi) (fst r) 1, dict_rank (rank_dict ex_fmi) (snd r) 1)"
    by (simp add: ex_fmi_def ex_dict_def)
  have p: "primary ex_fmi \<le> length_fmi ex_fmi"
    by (simp add: ex_fmi_def)
  have t: "count ex_fmi 1 = dict_rank (rank_dict ex_fmi) (length_fmi ex_fmi - 1) 1"
    by (simp add: ex_fmi_def ex_dict_def ex_occ_def ex_bwt_def)
  have v: "rank_range ex_fmi (1, 5) 1 = (0, 1)" "rank_range ex_fmi (8, 3) 1 = (2, 0)"
    by code_simp+
  show ?thesis
    using rank_range_cases [of "(5, 5)" ex_fmi 1] rank_range_cases [of "(- 1, 8)" ex_fmi 3]
      rank_range_cases [of "(1, 5)" ex_fmi 1] rank_range_cases [of "(8, 3)" ex_fmi 1] d p t v
    by (simp add: ex_fmi_def)
qed

text \<open>
  Claim C8 as stated fails in its third case where the right end of the range is the
  all-ones word. In the index of \<open>2^32 - 1\<close> symbols A, the range from row 3 to the last
  row \<open>L\<close> gets \<open>(4, count A)\<close>, and the pair of the two point ranks is \<open>(4, 0)\<close>, the rank
  at \<open>L\<close> being read as the rank at \<open>-1\<close>.
\<close>

theorem rank_range_counterexample:
  "rank_range ex_max_fmi (3, 4294967295) 0 = (4, 4294967295)
   \<and> (rank ex_max_fmi 3 0, rank ex_max_fmi 4294967295 0) = (4, 0)"
  by (simp add: rank_range_def rank_def ex_max_fmi_def word_le_nat_alt)

lemma unat_succ:
  fixes a :: "'w::len word"
  assumes "a \<noteq> - 1"
  shows "unat (a + 1) = Suc (unat a)"
proof -
  have "1 + a \<noteq> 0"
    using assms max_word_wrap [of a] by (auto simp: add.commute)
  then have "unat (1 + a) = Suc (unat a)"
    by (rule unatSuc)
  then show ?thesis
    by (simp add: add.commute)
qed












text \<open>
  In the index of \<open>2^32 - 1\<close> symbols A the dictionary's rank of A at \<open>k\<close> is \<open>k + 1\<close>,
  monotone in the order of \<open>k + 1\<close>.
\<close>

lemma ex_max_dict_monotone:
  "a + 1 \<le> b + 1 \<Longrightarrow>
   dict_rank (rank_dict ex_max_fmi) a 0 \<le> dict_rank (rank_dict ex_max_fmi) b 0"
  by (simp add: ex_max_fmi_def)


section \<open>Properties of the backward search\<close>

lemma match_loop_stop:
  "\<not> (0 \<le> i \<and> fst rng \<le> snd rng) \<Longrightarrow> match_loop fmi pattern i rng = rng"
  by (subst match_loop.simps) auto

lemma match_reverse_loop_stop:
  "\<not> (i < pattern_len \<and> fst rng \<le> snd rng) \<Longrightarrow>
   match_reverse_loop fmi pattern pattern_len i rng = rng"
  by (subst match_reverse_loop.simps) auto

lemma match_loop_empty:
  "snd rng < fst rng \<Longrightarrow> match_loop fmi pattern i rng = rng"
  by (rule match_loop_stop) (simp add: not_le)

lemma match_loop_negative:
  "i < 0 \<Longrightarrow> match_loop fmi pattern i rng = rng"
  by (rule match_loop_stop) simp

lemma match_reverse_loop_empty:
  "snd rng < fst rng \<Longrightarrow> match_reverse_loop fmi pattern pattern_len i rng = rng"
  by (rule match_reverse_loop_stop) (simp add: not_le)

lemma scan_empty:
  "snd rng < fst rng \<Longrightarrow> scan fmi cs rng = rng"
  by (cases cs) auto

lemma scan_append:
  "scan fmi (xs @ ys) rng = scan fmi ys (scan fmi xs rng)"
proof (induction xs arbitrary: rng)
  case Nil
  show ?case by simp
next
  case (Cons c xs)
  show ?case
  proof (cases "fst rng \<le> snd rng")
    case True
    have "scan fmi ys (1, 0) = (1, 0)"
      by (rule scan_empty) simp
    with True Cons.IH show ?thesis by simp
  next
    case False
    then have "snd rng < fst rng" by simp
    then have "scan fmi ys rng = rng" by (rule scan_empty)
    with False show ?thesis by simp
  qed
qed

lemma scan_ambiguous:
  assumes "3 < c"
  shows "scan fmi (xs @ c # ys) rng =
          (let r = scan fmi xs rng in if fst r \<le> snd r then (1, 0) else r)"
proof -
  let ?r = "scan fmi xs rng"
  have "scan fmi (xs @ c # ys) rng = scan fmi ys (scan fmi [c] ?r)"
    using scan_append [of fmi xs "[c] @ ys" rng] scan_append [of fmi "[c]" ys ?r] by simp
  moreover have "scan fmi [c] ?r = (if fst ?r \<le> snd ?r then (1, 0) else ?r)"
    using assms by simp
  moreover have "snd (if fst ?r \<le> snd ?r then (1, 0) else ?r)
      < fst (if fst ?r \<le> snd ?r then (1, 0) else ?r)"
    by auto
  ultimately show ?thesis
    by (simp add: scan_empty Let_def)
qed

lemma match_loop_scan:
  "match_loop fmi pattern i rng = scan fmi (map pattern (rev [0..<nat (i + 1)])) rng"
proof (induction fmi pattern i rng rule: match_loop.induct)
  case (1 fmi pattern i rng)
  show ?case
  proof (cases "0 \<le> i \<and> fst rng \<le> snd rng")
    case True
    then have n: "nat (i + 1) = Suc (nat i)" and m: "nat (i - 1 + 1) = nat i"
      by linarith+
    show ?thesis
    proof (cases "3 < pattern (nat i)")
      case True
      with \<open>0 \<le> i \<and> fst rng \<le> snd rng\<close> show ?thesis
        by (subst match_loop.simps) (simp add: n)
    next
      case False
      with True "1.IH" [OF True refl False refl] show ?thesis
        by (subst match_loop.simps) (simp add: n m search_step_def Let_def)
    qed
  next
    case False
    then have "match_loop fmi pattern i rng = rng"
      by (rule match_loop_stop)
    moreover have "scan fmi (map pattern (rev [0..<nat (i + 1)])) rng = rng"
    proof (cases "0 \<le> i")
      case True
      with False have "snd rng < fst rng" by simp
      then show ?thesis by (rule scan_empty)
    next
      case False
      then show ?thesis by simp
    qed
    ultimately show ?thesis by simp
  qed
qed

lemma match_reverse_loop_scan:
  "match_reverse_loop fmi pattern pattern_len i rng =
     scan fmi (map pattern [unat i..<unat pattern_len]) rng"
proof (induction fmi pattern pattern_len i rng rule: match_reverse_loop.induct)
  case (1 fmi pattern pattern_len i rng)
  show ?case
  proof (cases "i < pattern_len \<and> fst rng \<le> snd rng")
    case True
    then have lt: "unat i < unat pattern_len"
      by (simp add: word_less_nat_alt)
    have "i \<noteq> - 1" using True by auto
    then have n: "unat (i + 1) = Suc (unat i)" by (rule unat_succ)
    have l: "[unat i..<unat pattern_len] = unat i # [Suc (unat i)..<unat pattern_len]"
      using lt by (rule upt_conv_Cons)
    show ?thesis
    proof (cases "3 < pattern (unat i)")
      case True
      with \<open>i < pattern_len \<and> fst rng \<le> snd rng\<close> show ?thesis
        by (subst match_reverse_loop.simps) (simp add: l)
    next
      case False
      with True "1.IH" [OF True refl False refl] show ?thesis
        by (subst match_reverse_loop.simps) (simp add: l n search_step_def Let_def)
    qed
  next
    case False
    then have "match_reverse_loop fmi pattern pattern_len i rng = rng"
      by (rule match_reverse_loop_stop)
    moreover have "scan fmi (map pattern [unat i..<unat pattern_len]) rng = rng"
    proof (cases "i < pattern_len")
      case True
      with False have "snd rng < fst rng" by simp
      then show ?thesis by (rule scan_empty)
    next
      case False
      then show ?thesis by (simp add: word_less_nat_alt)
    qed
    ultimately show ?thesis by simp
  qed
qed

lemma int32_counter_start:
  fixes pattern_len :: uint32
  assumes "pattern_len \<le> 2147483648"
  shows "nat (sint (pattern_len - 1) + 1) = unat pattern_len"
proof (cases "pattern_len = 0")
  case True
  then show ?thesis by simp
next
  case False
  then have u: "unat (pattern_len - 1) = unat pattern_len - 1"
    by (rule unat_minus_one)
  have pos: "0 < unat pattern_len"
    using False by (simp add: unat_gt_0)
  have "uint pattern_len \<le> uint (2147483648 :: uint32)"
    using assms by (simp only: word_le_def)
  then have b: "uint pattern_len \<le> 2147483648"
    by simp
  have p: "0 < uint pattern_len"
    using False by (simp add: word_neq_0_conv word_less_def)
  have "uint (pattern_len - 1) = uint pattern_len - 1"
    using p by (simp add: uint_sub_if_size word_size)
  moreover have "sint (pattern_len - 1) = signed_take_bit 31 (uint (pattern_len - 1))"
    by (simp add: sint_uint)
  moreover have "signed_take_bit 31 (uint pattern_len - 1) = uint pattern_len - 1"
  proof (rule signed_take_bit_int_eq_self)
    have e: "(2 :: int) ^ 31 = 2147483648" by simp
    show "- (2 ^ 31) \<le> uint pattern_len - 1"
      using p unfolding e by linarith
    show "uint pattern_len - 1 < 2 ^ 31"
      using b unfolding e by linarith
  qed
  ultimately have "sint (pattern_len - 1) = uint pattern_len - 1"
    by (simp only:)
  then have "sint (pattern_len - 1) + 1 = uint pattern_len"
    by linarith
  then have "nat (sint (pattern_len - 1) + 1) = nat (uint pattern_len)"
    by (rule arg_cong)
  also have "nat (uint pattern_len) = unat pattern_len"
    by (rule unat_eq_nat_uint [symmetric])
  finally show ?thesis .
qed

lemma match_scan:
  assumes "pattern_len \<le> 2147483648"
  shows "match fmi pattern pattern_len in_range =
           scan fmi (map pattern (rev [0..<unat pattern_len])) in_range"
  by (simp add: match_def match_loop_scan int32_counter_start [OF assms])

lemma match_reverse_scan:
  "match_reverse fmi pattern pattern_len =
     scan fmi (map pattern [0..<unat pattern_len]) (0, length_fmi fmi)"
  by (simp add: match_reverse_def match_reverse_loop_scan)

lemma map_rev_upt_shift:
  assumes "m \<le> n"
  shows "map pattern (rev [m..<n]) = map (\<lambda>k. pattern (m + k)) (rev [0..<n - m])"
proof -
  have "[m..<n] = map (\<lambda>k. k + m) [0..<n - m]"
    using assms by (simp add: map_add_upt)
  then show ?thesis
    by (simp add: rev_map o_def add.commute)
qed

lemma map_reverse_pattern:
  "map (reverse_pattern pattern pattern_len) (rev [0..<unat pattern_len])
     = map pattern [0..<unat pattern_len]"
  by (rule nth_equalityI) (simp_all add: rev_nth reverse_pattern_def)

lemma ambiguous_split:
  assumes "j < n"
  shows "rev [0..<n] = rev [Suc j..<n] @ j # rev [0..<j]"
    and "[0..<n] = [0..<j] @ j # [Suc j..<n]"
proof -
  show "[0..<n] = [0..<j] @ j # [Suc j..<n]"
    using assms by (metis le0 upt_add_eq_append upt_conv_Cons less_imp_le_nat le_add_diff_inverse)
  then show "rev [0..<n] = rev [Suc j..<n] @ j # rev [0..<j]"
    by simp
qed

text \<open>
  Claim C1, as the code has it. Let the pattern hold a symbol above 3 at position \<open>j\<close>.
  Then \<open>match\<close>, for a pattern of at most \<open>2^31\<close> symbols, returns an empty range
  (\<open>x > y\<close>): the canonical \<open>(1, 0)\<close> when the search of the symbols after position \<open>j\<close>
  (the ones the loop reads before it) leaves a non-empty range, and otherwise the empty
  range that this search ended with, which is the starting range itself when that is
  empty. \<open>match_reverse\<close> does the same, at any length, with the symbols before position
  \<open>j\<close> in place of those after it.
\<close>

theorem ambiguous_symbol_empties:
  fixes j pattern_len :: uint32 and fmi :: "'w::len fm_index"
  assumes "j < pattern_len" and "3 < pattern (unat j)"
  shows "(pattern_len \<le> 2147483648 \<longrightarrow>
            match fmi pattern pattern_len in_range =
              (let r = match fmi (\<lambda>k. pattern (Suc (unat j) + k)) (pattern_len - j - 1) in_range
               in if fst r \<le> snd r then (1, 0) else r)
            \<and> snd (match fmi pattern pattern_len in_range)
                < fst (match fmi pattern pattern_len in_range))
         \<and> match_reverse fmi pattern pattern_len =
              (let r = match_reverse fmi pattern j in if fst r \<le> snd r then (1, 0) else r)
         \<and> snd (match_reverse fmi pattern pattern_len)
             < fst (match_reverse fmi pattern pattern_len)"
proof -
  have lt: "unat j < unat pattern_len"
    using assms(1) by (simp add: word_less_nat_alt)
  have rest: "unat (pattern_len - j - 1) = unat pattern_len - Suc (unat j)"
    using assms(1) by unat_arith
  have rest_le: "pattern_len - j - 1 \<le> pattern_len"
    using assms(1) by unat_arith
  have empty: "snd (let r = q in if fst r \<le> snd r then (1, 0) else r)
      < fst (let r = q in if fst r \<le> snd r then (1, 0) else r)" for q :: "'w range_type"
    by (auto simp: Let_def)
  have rev_eq: "match_reverse fmi pattern pattern_len =
      (let r = match_reverse fmi pattern j in if fst r \<le> snd r then (1, 0) else r)"
    using assms(2) ambiguous_split(2) [OF lt]
    by (simp add: match_reverse_scan scan_ambiguous)
  have fwd: "match fmi pattern pattern_len in_range =
      (let r = match fmi (\<lambda>k. pattern (Suc (unat j) + k)) (pattern_len - j - 1) in_range
       in if fst r \<le> snd r then (1, 0) else r)"
    if b: "pattern_len \<le> 2147483648"
  proof -
    from b rest_le have b': "pattern_len - j - 1 \<le> 2147483648"
      by (rule order_trans [rotated])
    have "map pattern (rev [Suc (unat j)..<unat pattern_len])
        = map (\<lambda>k. pattern (Suc (unat j) + k)) (rev [0..<unat pattern_len - Suc (unat j)])"
      using lt by (intro map_rev_upt_shift) simp
    then show ?thesis
      using assms(2) ambiguous_split(1) [OF lt]
      by (simp add: match_scan [OF b] match_scan [OF b'] rest scan_ambiguous)
  qed
  show ?thesis
    using fwd rev_eq empty by metis
qed

theorem ambiguous_symbol_empties_witness:
  "(3 :: uint32) < 4 \<and> 3 < ex_acgn (unat (3 :: uint32)) \<and> (4 :: uint32) \<le> 2147483648
   \<and> match ex_fmi ex_acgn 4 (0, 8) = (1, 0)
   \<and> snd (match ex_fmi ex_acgn 4 (0, 8)) < fst (match ex_fmi ex_acgn 4 (0, 8))
   \<and> match_reverse ex_fmi ex_acgn 4 = (3, 2)
   \<and> snd (match_reverse ex_fmi ex_acgn 4) < fst (match_reverse ex_fmi ex_acgn 4)"
proof -
  have j: "(3 :: uint32) < 4" by simp
  have a: "3 < ex_acgn (unat (3 :: uint32))" by (simp add: ex_acgn_def)
  have b: "(4 :: uint32) \<le> 2147483648" by simp
  have before: "match ex_fmi (\<lambda>k. ex_acgn (Suc (unat (3 :: uint32)) + k)) (4 - 3 - 1) (0, 8)
      = (0, 8)"
    by (simp add: match_def match_loop_negative)
  have before_rev: "match_reverse ex_fmi ex_acgn 3 = (3, 2)"
    by code_simp
  from ambiguous_symbol_empties
    [where j = 3 and pattern_len = 4 and pattern = ex_acgn and fmi = ex_fmi
       and in_range = "(0, 8)", OF j a]
    j a b before before_rev
  show ?thesis by simp
qed

text \<open>
  Claim C1 as stated fails: \<^verbatim>\<open>CC\<close> does not occur in ACGTACGT and its search ends with the
  empty range \<open>(3, 2)\<close>, so the loop stops before it reads the \<^verbatim>\<open>N\<close> of \<^verbatim>\<open>NCC\<close> (read from the
  back by \<open>match\<close>) or of \<^verbatim>\<open>CCN\<close> (read from the front by \<open>match_reverse\<close>), and the result
  is \<open>(3, 2)\<close>, not \<open>(1, 0)\<close>.
\<close>

theorem ambiguous_symbol_counterexample:
  "3 < ex_ncc 0
   \<and> match ex_fmi ex_ncc 3 (0, 8) = (3, 2)
   \<and> 3 < ex_ccn 2
   \<and> match_reverse ex_fmi ex_ccn 3 = (3, 2)"
  by code_simp

text \<open>
  Up to \<open>2^31\<close> symbols, \<open>match_reverse\<close> on a pattern is \<open>match\<close>, from the full range,
  on the reversed pattern: both read the same symbols in the same order.
\<close>

lemma match_reverse_eq_match_bounded:
  assumes "pattern_len \<le> 2147483648"
  shows "match_reverse fmi pattern pattern_len
           = match_full fmi (reverse_pattern pattern pattern_len) pattern_len"
  by (simp add: match_full_def match_scan [OF assms] match_reverse_scan map_reverse_pattern)

text \<open>
  Claim C5 says that this holds for every pattern length. The code breaks it beyond
  \<open>2^31\<close> symbols: the counter of \<open>match\<close> is an \<^verbatim>\<open>int32\<close>, so at the length \<open>2^31 + 1\<close> it
  starts at \<open>- 2^31\<close>, the loop never runs, and \<open>match\<close> answers with the full range
  \<open>(0, 8)\<close>, every row a match. \<open>match_reverse\<close> counts in \<^verbatim>\<open>uint32\<close> and finds, after two
  symbols, that \<^verbatim>\<open>AA\<close> does not occur: \<open>(1, 0)\<close>.
\<close>

theorem match_reverse_int32_divergence:
  "match_reverse ex_fmi ex_all_a 2147483649 = (1, 0)
   \<and> match_full ex_fmi (reverse_pattern ex_all_a 2147483649) 2147483649 = (0, 8)"
  by code_simp

text \<open>
  Claim C7. Backward search preserves emptiness: for every FM-index, every pattern and
  every starting range with \<open>x > y\<close>, \<open>match\<close> returns a range with \<open>x > y\<close>; and from
  whatever position the loop goes on with such a range, it ends with \<open>x > y\<close>.
\<close>

theorem match_preserves_emptiness:
  assumes "snd rng < fst rng"
  shows "snd (match fmi pattern pattern_len rng) < fst (match fmi pattern pattern_len rng)
         \<and> (\<forall>i. snd (match_loop fmi pattern i rng) < fst (match_loop fmi pattern i rng))"
  using assms by (simp add: match_def match_loop_empty)

theorem match_preserves_emptiness_witness:
  "snd (5 :: 32 word, 2 :: 32 word) < fst (5 :: 32 word, 2 :: 32 word)
   \<and> snd (match ex_fmi ex_acgt 4 (5, 2)) < fst (match ex_fmi ex_acgt 4 (5, 2))"
proof -
  have h: "snd (5 :: 32 word, 2 :: 32 word) < fst (5 :: 32 word, 2 :: 32 word)"
    by simp
  from match_preserves_emptiness [OF h] h show ?thesis by blast
qed

text \<open>
  Claim C10. \<open>match\<close> returns its starting range itself whenever the pattern length is
  \<open>0\<close> or the starting range is empty (\<open>x > y\<close>): the loop body, with its test for a symbol
  above 3, never runs. So a pattern with such a symbol, searched from an empty range,
  gives that range and not \<open>(1, 0)\<close>; and the overload without a starting range, at length
  \<open>0\<close>, gives the full range \<open>(0, L)\<close>.
\<close>

theorem match_returns_in_range:
  "(pattern_len = 0 \<or> snd in_range < fst in_range \<longrightarrow>
      match fmi pattern pattern_len in_range = in_range)
   \<and> match_full fmi pattern 0 = (0, length_fmi fmi)"
  by (auto simp: match_def match_full_def match_loop_empty match_loop_negative)

theorem match_returns_in_range_witness:
  "3 < ex_n 0
   \<and> match ex_fmi ex_n 1 (5, 2) = (5, 2)
   \<and> match ex_fmi ex_acgt 0 (0, 8) = (0, 8)
   \<and> match_full ex_fmi ex_acgt 0 = (0, 8)"
  using match_returns_in_range [of 1 "(5, 2)" ex_fmi ex_n]
    match_returns_in_range [of 0 "(0, 8)" ex_fmi ex_acgt]
  by (simp add: ex_fmi_def ex_n_def)

section \<open>Properties of the coordinate recovery\<close>

lemma word32_less_8:
  "(k :: 32 word) < 8 \<Longrightarrow>
   k = 0 \<or> k = 1 \<or> k = 2 \<or> k = 3 \<or> k = 4 \<or> k = 5 \<or> k = 6 \<or> k = 7"
  by unat_arith

text \<open>
  Claim C6. For every FM-index that is well formed and every row \<open>i \<le> L\<close>,
  \<open>basic_inv_psi fmi i = 0\<close> exactly when \<open>i\<close> is the primary row. Well formed means: the
  primary row is at most \<open>L\<close>, and for every stored position \<open>k < L\<close> with symbol
  \<open>c = bwt[k]\<close>, the dictionary's rank of \<open>c\<close> at \<open>k\<close> is at least 1 (the symbol at \<open>k\<close>
  counts itself) and \<open>L2(c) + rank(k, c)\<close> is a row, at most \<open>L\<close>, with no wrap-around
  (what the walks assert after this very sum).
\<close>

theorem basic_inv_psi_zero_iff:
  fixes fmi :: "'w::len fm_index"
  assumes "i \<le> length_fmi fmi" and "primary fmi \<le> length_fmi fmi"
    and wf: "\<forall>k. k < length_fmi fmi \<longrightarrow>
               1 \<le> dict_rank (rank_dict fmi) k (bwt fmi k)
               \<and> unat (L2 fmi (bwt fmi k)) + unat (dict_rank (rank_dict fmi) k (bwt fmi k))
                   \<le> unat (length_fmi fmi)"
  shows "basic_inv_psi fmi i = 0 \<longleftrightarrow> i = primary fmi"
proof (cases "i = primary fmi")
  case True
  then show ?thesis by (simp add: basic_inv_psi_def)
next
  case False
  define k where "k = (if i < primary fmi then i else i - 1)"
  have "k < length_fmi fmi"
  proof (cases "i < primary fmi")
    case True
    with assms(2) show ?thesis by (simp add: k_def)
  next
    case f: False
    with False have "primary fmi < i" by simp
    then have "i \<noteq> 0" by auto
    then have "i - 1 < i" by (simp add: word_less_nat_alt unat_minus_one unat_gt_0)
    with assms(1) f show ?thesis by (simp add: k_def)
  qed
  with wf have r: "1 \<le> dict_rank (rank_dict fmi) k (bwt fmi k)"
    and s: "unat (L2 fmi (bwt fmi k)) + unat (dict_rank (rank_dict fmi) k (bwt fmi k))
             \<le> unat (length_fmi fmi)"
    by blast+
  have "unat (length_fmi fmi) < 2 ^ LENGTH('w)"
    by (rule unsigned_less)
  with s have "unat (L2 fmi (bwt fmi k)) + unat (dict_rank (rank_dict fmi) k (bwt fmi k))
      < 2 ^ LENGTH('w)"
    by (rule le_less_trans)
  then have "unat (L2 fmi (bwt fmi k) + dict_rank (rank_dict fmi) k (bwt fmi k))
      = unat (L2 fmi (bwt fmi k)) + unat (dict_rank (rank_dict fmi) k (bwt fmi k))"
    by (rule unat_add_lem [THEN iffD1])
  moreover have "1 \<le> unat (dict_rank (rank_dict fmi) k (bwt fmi k))"
    using r by (simp add: word_le_nat_alt)
  ultimately have "L2 fmi (bwt fmi k) + dict_rank (rank_dict fmi) k (bwt fmi k) \<noteq> 0"
    by (metis add_is_0 not_one_le_zero unat_0)
  with False show ?thesis
    by (simp add: basic_inv_psi_def k_def Let_def)
qed

theorem basic_inv_psi_zero_iff_witness:
  "(3 :: 32 word) \<le> length_fmi ex_fmi \<and> primary ex_fmi \<le> length_fmi ex_fmi
   \<and> (basic_inv_psi ex_fmi 3 = 0 \<longleftrightarrow> 3 = primary ex_fmi)
   \<and> basic_inv_psi ex_fmi 3 = 1
   \<and> basic_inv_psi ex_fmi (primary ex_fmi) = 0"
proof -
  have i: "(3 :: 32 word) \<le> length_fmi ex_fmi" and p: "primary ex_fmi \<le> length_fmi ex_fmi"
    by (simp_all add: ex_fmi_def)
  have wf: "\<forall>k. k < length_fmi ex_fmi \<longrightarrow>
               1 \<le> dict_rank (rank_dict ex_fmi) k (bwt ex_fmi k)
               \<and> unat (L2 ex_fmi (bwt ex_fmi k))
                   + unat (dict_rank (rank_dict ex_fmi) k (bwt ex_fmi k))
                   \<le> unat (length_fmi ex_fmi)"
  proof (intro allI impI)
    fix k :: "32 word"
    assume "k < length_fmi ex_fmi"
    then have "k < 8" by (simp add: ex_fmi_def)
    then have "k = 0 \<or> k = 1 \<or> k = 2 \<or> k = 3 \<or> k = 4 \<or> k = 5 \<or> k = 6 \<or> k = 7"
      by (rule word32_less_8)
    then show "1 \<le> dict_rank (rank_dict ex_fmi) k (bwt ex_fmi k)
               \<and> unat (L2 ex_fmi (bwt ex_fmi k))
                   + unat (dict_rank (rank_dict ex_fmi) k (bwt ex_fmi k))
                   \<le> unat (length_fmi ex_fmi)"
      by (elim disjE) (simp_all add: ex_fmi_def ex_dict_def ex_occ_def ex_bwt_def)
  qed
  have v: "basic_inv_psi ex_fmi 3 = 1" "basic_inv_psi ex_fmi (primary ex_fmi) = 0"
    by code_simp+
  from basic_inv_psi_zero_iff [OF i p wf] i p v show ?thesis
    by simp
qed

lemma locate_loop_unfold:
  "locate_loop fmi j t =
     (case fetch (sa fmi) j of
        Some suffix \<Rightarrow> Some (suffix + t)
      | None \<Rightarrow> locate_loop fmi (walk_step fmi j) (t + 1))"
  unfolding walk_step_def by (fact locate_loop.simps)

lemma locate_ssa_iterator_loop_unfold:
  "locate_ssa_iterator_loop fmi j t =
     (if \<not> has (sa fmi) j then locate_ssa_iterator_loop fmi (walk_step fmi j) (t + 1)
      else Some (j, t))"
  unfolding walk_step_def by (fact locate_ssa_iterator_loop.simps)

lemma split_walk_agrees:
  assumes hf: "\<forall>j. has (sa fmi) j \<longleftrightarrow> fetch (sa fmi) j \<noteq> None"
    and reach: "has (sa fmi) ((walk_step fmi ^^ n) j)"
  shows "\<exists>it v. locate_ssa_iterator_loop fmi j t = Some it
           \<and> lookup_ssa_iterator fmi it = Some v
           \<and> locate_loop fmi j t = Some v"
  using reach
proof (induction n arbitrary: j t)
  case 0
  then have "has (sa fmi) j" by simp
  with hf obtain s where s: "fetch (sa fmi) j = Some s" by auto
  have "locate_ssa_iterator_loop fmi j t = Some (j, t)"
    using \<open>has (sa fmi) j\<close> by (subst locate_ssa_iterator_loop_unfold) simp
  moreover have "lookup_ssa_iterator fmi (j, t) = Some (s + t)"
    using s by (simp add: lookup_ssa_iterator_def)
  moreover have "locate_loop fmi j t = Some (s + t)"
    using s by (subst locate_loop_unfold) simp
  ultimately show ?case by blast
next
  case (Suc n)
  show ?case
  proof (cases "has (sa fmi) j")
    case True
    then have "has (sa fmi) ((walk_step fmi ^^ 0) j)" by simp
    with hf obtain s where s: "fetch (sa fmi) j = Some s" by auto
    have "locate_ssa_iterator_loop fmi j t = Some (j, t)"
      using True by (subst locate_ssa_iterator_loop_unfold) simp
    moreover have "lookup_ssa_iterator fmi (j, t) = Some (s + t)"
      using s by (simp add: lookup_ssa_iterator_def)
    moreover have "locate_loop fmi j t = Some (s + t)"
      using s by (subst locate_loop_unfold) simp
    ultimately show ?thesis by blast
  next
    case False
    with hf have n: "fetch (sa fmi) j = None" by simp
    from Suc.prems have "has (sa fmi) ((walk_step fmi ^^ n) (walk_step fmi j))"
      by (simp add: funpow_swap1)
    then obtain it v where
      "locate_ssa_iterator_loop fmi (walk_step fmi j) (t + 1) = Some it"
      "lookup_ssa_iterator fmi it = Some v"
      "locate_loop fmi (walk_step fmi j) (t + 1) = Some v"
      using Suc.IH by blast
    moreover have "locate_ssa_iterator_loop fmi j t
        = locate_ssa_iterator_loop fmi (walk_step fmi j) (t + 1)"
      using False by (subst locate_ssa_iterator_loop_unfold) simp
    moreover have "locate_loop fmi j t = locate_loop fmi (walk_step fmi j) (t + 1)"
      using n by (subst locate_loop_unfold) simp
    ultimately show ?thesis by simp
  qed
qed

text \<open>
  Claim C4. For every FM-index whose sampled suffix array has a row exactly when the
  fetch of that row succeeds, and every row \<open>i \<le> L\<close> whose walk reaches a sampled row
  (after some number \<open>n\<close> of turns): \<open>locate_ssa_iterator\<close> returns an iterator,
  \<open>lookup_ssa_iterator\<close> resolves it to a coordinate, and \<open>locate\<close> returns that same
  coordinate. All three return; none is left unfinished.
\<close>

theorem locate_split_pipeline:
  assumes "\<forall>j. has (sa fmi) j \<longleftrightarrow> fetch (sa fmi) j \<noteq> None"
    and "i \<le> length_fmi fmi"
    and "has (sa fmi) ((walk_step fmi ^^ n) i)"
  shows "\<exists>it v. locate_ssa_iterator fmi i = Some it
           \<and> lookup_ssa_iterator fmi it = Some v
           \<and> locate fmi i = Some v"
  unfolding locate_ssa_iterator_def locate_def
  using assms(1,3) by (rule split_walk_agrees)

theorem locate_split_pipeline_witness:
  "(3 :: 32 word) \<le> length_fmi ex_fmi
   \<and> has (sa ex_fmi) ((walk_step ex_fmi ^^ 2) 3)
   \<and> (\<exists>it v. locate_ssa_iterator ex_fmi 3 = Some it
           \<and> lookup_ssa_iterator ex_fmi it = Some v
           \<and> locate ex_fmi 3 = Some v)
   \<and> locate_ssa_iterator ex_fmi 3 = Some (8, 2)
   \<and> lookup_ssa_iterator ex_fmi (8, 2) = Some 5
   \<and> locate ex_fmi 3 = Some 5"
proof -
  have hf: "\<forall>j. has (sa ex_fmi) j \<longleftrightarrow> fetch (sa ex_fmi) j \<noteq> None"
    by (simp add: ex_fmi_def ex_sa_def)
  have i: "(3 :: 32 word) \<le> length_fmi ex_fmi"
    by (simp add: ex_fmi_def)
  have r: "has (sa ex_fmi) ((walk_step ex_fmi ^^ 2) 3)"
    by code_simp
  have v: "locate_ssa_iterator ex_fmi 3 = Some (8, 2)"
    "lookup_ssa_iterator ex_fmi (8, 2) = Some 5" "locate ex_fmi 3 = Some 5"
    by code_simp+
  from locate_split_pipeline [OF hf i r] i r v show ?thesis
    by blast
qed

end
